theory Spec2Isabelle
  imports Main "HOL-Library.Sublist" "HOL-Library.Char_ord" "HOL-Library.List_Lexorder"
    "HOL-Library.Multiset"
begin

chapter \<open>The customers table: pagination hook, URL codec and mock endpoint\<close>

text \<open>
  The development embeds three parts of the repository:
  \<^item> \<^verbatim>\<open>src/hooks/usePaginatedTable.ts\<close>: the page button layout (\<^verbatim>\<open>makePageButtons\<close>),
    the query parameter codec (\<^verbatim>\<open>defaultParams\<close>, \<^verbatim>\<open>readFromUrl\<close>), the state setters and
    the fetch with its latest-wins guard (\<^verbatim>\<open>refresh\<close>);
  \<^item> \<^verbatim>\<open>src/pages/api/customers.ts\<close>: the request handler of the mock endpoint.

  Conventions of the embedding. A JavaScript \<^verbatim>\<open>number\<close> that the code treats as an integer
  is an \<^typ>\<open>int\<close> (unbounded: the rounding of doubles beyond \<open>2\<^sup>5\<^sup>3\<close> is not
  modelled, so an \<^typ>\<open>int\<close> stands for the number only when a double holds it exactly);
  where the code can produce
  \<^verbatim>\<open>NaN\<close> the type is \<open>number\<close>, with \<open>NaN\<close> as a value of its own. A string is a
  \<^typ>\<open>string\<close>, one \<^typ>\<open>char\<close> per code unit, so only code units below 256 are
  represented. A plain object is an association list in insertion order
  (integer-like keys, which JavaScript enumerates first, are not treated specially).
\<close>

section \<open>The embedding\<close>

subsection \<open>JavaScript values\<close>

text \<open>The scalar values a filter can hold (\<^verbatim>\<open>Filters = Record<string, unknown>\<close>).\<close>

datatype jsval = Undefined | Null | Str string | Num int | Bool bool

datatype number = NaN | Fin int

type_synonym 'v obj = "(string \<times> 'v) list"

text \<open>
  Defining an own property, as the spread with a computed key \<^verbatim>\<open>{ ...o, [k]: v }\<close> does:
  an existing key keeps its position and takes the new value, a new key is appended.
\<close>

fun obj_set :: "'v obj \<Rightarrow> string \<Rightarrow> 'v \<Rightarrow> 'v obj" where
  "obj_set [] k v = [(k, v)]"
| "obj_set ((k', v') # f) k v = (if k' = k then (k, v) # f else (k', v') # obj_set f k v)"

text \<open>
  The assignment \<^verbatim>\<open>o[k] = v\<close> of a string \<open>v\<close> to a plain object. It writes the own
  property \<open>k\<close> when there is one, and defines it otherwise, with one exception: for the
  key \<^verbatim>\<open>__proto__\<close> that is not an own property the assignment reaches the setter that
  \<^verbatim>\<open>Object.prototype\<close> has under that name, which ignores a string and stores nothing. Every
  other property of \<^verbatim>\<open>Object.prototype\<close> is a writable data property and does not stand
  in the way.
\<close>

definition obj_assign :: "'v obj \<Rightarrow> string \<Rightarrow> 'v \<Rightarrow> 'v obj" where
  "obj_assign f k v = (if k = ''__proto__'' \<and> map_of f k = None then f else obj_set f k v)"

subsection \<open>Page buttons\<close>

text \<open>
  \<^verbatim>\<open>makePageButtons(curr, total, max)\<close> returns page numbers and the marker \<^verbatim>\<open>'...'\<close>.
  The local closure \<^verbatim>\<open>add\<close> pushes an entry unless it equals the last one pushed; on the
  empty array \<^verbatim>\<open>out[out.length - 1]\<close> is \<^verbatim>\<open>undefined\<close>, which differs from every entry.
  The \<^verbatim>\<open>for\<close> loop over \<^verbatim>\<open>left..right\<close> is the recursion \<open>add_range\<close>.
\<close>

datatype button = Page int | Ellipsis

definition add :: "button list \<Rightarrow> button \<Rightarrow> button list" where
  "add out n = (if out \<noteq> [] \<and> last out = n then out else out @ [n])"

function add_range :: "int \<Rightarrow> int \<Rightarrow> button list \<Rightarrow> button list" where
  "add_range i right out =
     (if i \<le> right then add_range (i + 1) right (add out (Page i)) else out)"
  by pat_completeness auto
termination
  by (relation "measure (\<lambda>(i, right, out). nat (right + 1 - i))") auto

declare add_range.simps [simp del]

definition makePageButtons :: "int \<Rightarrow> int \<Rightarrow> int \<Rightarrow> button list" where
  "makePageButtons cur tot mx =
     (if tot \<le> mx then map (\<lambda>i. Page (int i + 1)) [0..<nat tot]
      else
        let out = [];
            left = max 1 (cur - 1);
            right = min tot (cur + 1);
            out = add out (Page 1);
            out = (if left > 2 then add out Ellipsis else out);
            out = add_range left right out;
            out = (if right < tot - 1 then add out Ellipsis else out);
            out = add out (Page tot)
        in out)"



subsection \<open>Table state\<close>

text \<open>
  \<^verbatim>\<open>Sort\<close> is \<^verbatim>\<open>{ key, dir } | null\<close>. The direction is typed \<^verbatim>\<open>'asc' | 'desc'\<close>, but
  \<^verbatim>\<open>readFromUrl\<close> stores whatever string follows the colon (its cast to \<^verbatim>\<open>any\<close>), so the
  field is a string here.
\<close>

record Sort =
  key :: string
  dir :: string

type_synonym Filters = "jsval obj"

record State =
  page :: int
  pageSize :: int
  query :: string
  sorting :: "Sort option"
  filters :: Filters

subsection \<open>URLSearchParams\<close>

text \<open>
  A list of name-value pairs. \<^verbatim>\<open>set\<close> overwrites the first pair of that name and removes
  the others, or appends; \<^verbatim>\<open>get\<close> returns the first value of that name, or \<^verbatim>\<open>null\<close>.
\<close>

type_synonym URLSearchParams = "(string \<times> string) list"

fun params_set :: "URLSearchParams \<Rightarrow> string \<Rightarrow> string \<Rightarrow> URLSearchParams" where
  "params_set [] n v = [(n, v)]"
| "params_set ((k, x) # p) n v =
     (if k = n then (n, v) # filter (\<lambda>e. fst e \<noteq> n) p else (k, x) # params_set p n v)"

definition params_get :: "URLSearchParams \<Rightarrow> string \<Rightarrow> string option" where
  "params_get p n = map_of p n"

subsection \<open>Numbers and strings\<close>

text \<open>
  \<^verbatim>\<open>String(n)\<close> of an integer, with a minus sign when negative. Below \<open>10\<^sup>2\<^sup>1\<close> it is the
  decimal digits. From \<open>10\<^sup>2\<^sup>1\<close> on it is the exponent notation: the first significant
  digit, then a point and the other significant digits if there are any, then \<^verbatim>\<open>e+\<close> and
  the decimal exponent, as in \<^verbatim>\<open>1e+21\<close> and \<^verbatim>\<open>1.5e+21\<close>. The significant digits here are
  the digits of the integer without its trailing zeros; JavaScript prints the shortest
  digits that identify the double, which are the same whenever the integer has at most
  15 significant digits.
\<close>

definition digit_char :: "nat \<Rightarrow> char" where
  "digit_char d = char_of (48 + d)"

fun digits_of :: "nat \<Rightarrow> string" where
  "digits_of n = (if n < 10 then [digit_char n] else digits_of (n div 10) @ [digit_char (n mod 10)])"

declare digits_of.simps [simp del]

definition exponent_form :: "string \<Rightarrow> string" where
  "exponent_form ds =
     (let s = rev (dropWhile (\<lambda>c. c = CHR ''0'') (rev ds))
      in (if tl s = [] then s else hd s # CHR ''.'' # tl s)
         @ ''e+'' @ digits_of (length ds - 1))"

definition String_int :: "int \<Rightarrow> string" where
  "String_int n =
     (let ds = digits_of (nat \<bar>n\<bar>);
          body = (if \<bar>n\<bar> < 1000000000000000000000 then ds else exponent_form ds)
      in if n < 0 then CHR ''-'' # body else body)"

fun String_val :: "jsval \<Rightarrow> string" where
  "String_val Undefined = ''undefined''"
| "String_val Null = ''null''"
| "String_val (Str s) = s"
| "String_val (Num n) = String_int n"
| "String_val (Bool b) = (if b then ''true'' else ''false'')"

text \<open>
  \<^verbatim>\<open>parseInt(string, radix)\<close> as ECMAScript defines it; radix \<open>0\<close> stands for an absent
  radix. Leading white space is skipped (tab, line feed, vertical tab, form feed, carriage
  return, space and no-break space, the white space and line terminators below 256), a
  sign is read, the prefix \<^verbatim>\<open>0x\<close> selects radix 16 when the radix is
  absent or 16, and the longest prefix of digits of the radix is the value; no digit
  gives \<^verbatim>\<open>NaN\<close>.
\<close>

definition isWhiteSpace :: "char \<Rightarrow> bool" where
  "isWhiteSpace c = (of_char c \<in> {9, 10, 11, 12, 13, 32, 160 :: nat})"

definition digitVal :: "char \<Rightarrow> nat option" where
  "digitVal c =
     (let n = (of_char c :: nat) in
      if 48 \<le> n \<and> n \<le> 57 then Some (n - 48)
      else if 97 \<le> n \<and> n \<le> 122 then Some (n - 87)
      else if 65 \<le> n \<and> n \<le> 90 then Some (n - 55)
      else None)"

definition isDigit :: "nat \<Rightarrow> char \<Rightarrow> bool" where
  "isDigit R c = (case digitVal c of None \<Rightarrow> False | Some d \<Rightarrow> d < R)"

definition digitsValue :: "nat \<Rightarrow> string \<Rightarrow> nat" where
  "digitsValue R z =
     foldl (\<lambda>acc c. acc * R + (case digitVal c of None \<Rightarrow> 0 | Some d \<Rightarrow> d)) 0 z"

definition parseInt :: "string \<Rightarrow> nat \<Rightarrow> number" where
  "parseInt inp radix =
     (let s = dropWhile isWhiteSpace inp;
          sgn = (if s \<noteq> [] \<and> hd s = CHR ''-'' then - 1 else 1 :: int);
          s = (if s \<noteq> [] \<and> (hd s = CHR ''+'' \<or> hd s = CHR ''-'') then tl s else s);
          stripPrefix = (radix = 0 \<or> radix = 16);
          R = (if radix = 0 then 10 else radix)
      in if radix \<noteq> 0 \<and> (radix < 2 \<or> 36 < radix) then NaN
         else
           let hex = (stripPrefix \<and> (take 2 s = ''0x'' \<or> take 2 s = ''0X''));
               s = (if hex then drop 2 s else s);
               R = (if hex then 16 else R);
               z = takeWhile (isDigit R) s
           in if z = [] then NaN else Fin (sgn * int (digitsValue R z)))"

text \<open>\<^verbatim>\<open>s.split(c)\<close> for a one-character separator; the result is never empty.\<close>

fun split_on :: "char \<Rightarrow> string \<Rightarrow> string list" where
  "split_on c [] = [[]]"
| "split_on c (x # xs) =
     (if x = c then [] # split_on c xs
      else (case split_on c xs of [] \<Rightarrow> [[x]] | w # ws \<Rightarrow> (x # w) # ws))"

text \<open>
  \<^verbatim>\<open>key.match(/^filters\[(.+)\]$/)\<close>: the key is \<^verbatim>\<open>filters[\<close>, a non-empty name without a
  line terminator (the dot does not match one), and a closing bracket at the very end.
  The result is the captured name, or \<open>None\<close> when the key does not match.
\<close>

definition isLineTerminator :: "char \<Rightarrow> bool" where
  "isLineTerminator c = (of_char c \<in> {10, 13 :: nat})"

definition match_filter_key :: "string \<Rightarrow> string option" where
  "match_filter_key k =
     (let rest = drop 8 k in
      if take 8 k = ''filters['' \<and> rest \<noteq> [] \<and> last rest = CHR '']''
         \<and> butlast rest \<noteq> [] \<and> \<not> list_ex isLineTerminator (butlast rest)
      then Some (butlast rest) else None)"

subsection \<open>The query parameter codec\<close>

text \<open>
  \<^verbatim>\<open>defaultParams\<close> writes \<^verbatim>\<open>page\<close> and \<^verbatim>\<open>pageSize\<close> always, \<^verbatim>\<open>q\<close> when the query is
  truthy, \<^verbatim>\<open>sort\<close> as \<^verbatim>\<open>key:dir\<close> when a sort is set, and one \<^verbatim>\<open>filters[k]\<close> for every
  filter whose value is neither \<^verbatim>\<open>null\<close>, \<^verbatim>\<open>undefined\<close> nor the empty string.
\<close>

definition defaultParams :: "State \<Rightarrow> URLSearchParams" where
  "defaultParams s =
     (let p = [];
          p = params_set p ''page'' (String_int (page s));
          p = params_set p ''pageSize'' (String_int (pageSize s));
          p = (if query s \<noteq> [] then params_set p ''q'' (query s) else p);
          p = (case sorting s of
                 None \<Rightarrow> p
               | Some so \<Rightarrow> params_set p ''sort'' (key so @ '':'' @ dir so))
      in foldl (\<lambda>p (k, v).
                  if v \<noteq> Null \<and> v \<noteq> Undefined \<and> v \<noteq> Str []
                  then params_set p (''filters['' @ k @ '']'') (String_val v) else p)
           p (filters s))"

text \<open>
  \<^verbatim>\<open>readFromUrl(fallback)\<close> reads the search parameters of \<^verbatim>\<open>window.location\<close>; they are
  the first argument here, \<open>None\<close> when there is no \<^verbatim>\<open>window\<close> (rendering on the server).
  \<^verbatim>\<open>parseInt(...) || fallback.page\<close> takes the fallback for \<^verbatim>\<open>NaN\<close> and for \<open>0\<close>.
\<close>

definition readFromUrl :: "URLSearchParams option \<Rightarrow> State \<Rightarrow> State" where
  "readFromUrl window fallback =
     (case window of
        None \<Rightarrow> fallback
      | Some q \<Rightarrow>
          let page = (case parseInt (case params_get q ''page'' of None \<Rightarrow> [] | Some v \<Rightarrow> v) 0 of
                        NaN \<Rightarrow> page fallback
                      | Fin n \<Rightarrow> if n = 0 then page fallback else n);
              pageSize = (case parseInt (case params_get q ''pageSize'' of None \<Rightarrow> [] | Some v \<Rightarrow> v) 0 of
                        NaN \<Rightarrow> pageSize fallback
                      | Fin n \<Rightarrow> if n = 0 then pageSize fallback else n);
              query = (case params_get q ''q'' of None \<Rightarrow> query fallback | Some v \<Rightarrow> v);
              sortParam = params_get q ''sort'';
              sort = (case sortParam of
                        None \<Rightarrow> sorting fallback
                      | Some sp \<Rightarrow>
                          if sp = [] then sorting fallback
                          else Some \<lparr> key = hd (split_on CHR '':'' sp),
                                      dir = (case tl (split_on CHR '':'' sp) of
                                               [] \<Rightarrow> ''asc''
                                             | d # _ \<Rightarrow> if d = [] then ''asc'' else d) \<rparr>);
              filters = foldl (\<lambda>f (k, val).
                                 case match_filter_key k of
                                   None \<Rightarrow> f
                                 | Some m \<Rightarrow> obj_assign f m (Str val))
                          (filters fallback) q
          in \<lparr> page = page, pageSize = pageSize, query = query, sorting = sort,
               filters = filters \<rparr>)"

text \<open>
  The filter pairs of a query string, read off the string alone: a pair
  \<^verbatim>\<open>filters[name]=value\<close> is a pair whose key is \<^verbatim>\<open>filters[\<close>, any name, and \<^verbatim>\<open>]\<close>.
  \<open>url_pairs\<close> lists them as name and value, in the order of the string. A name is plain
  when it is not empty, has no line terminator and is not \<^verbatim>\<open>__proto__\<close>.
\<close>

definition bracket_name :: "string \<Rightarrow> string option" where
  "bracket_name k =
     (if 9 \<le> length k \<and> take 8 k = ''filters['' \<and> last k = CHR '']''
      then Some (butlast (drop 8 k)) else None)"

definition url_pairs :: "URLSearchParams \<Rightarrow> (string \<times> string) list" where
  "url_pairs q =
     concat (map (\<lambda>(k, val). case bracket_name k of
                                None \<Rightarrow> [] | Some m \<Rightarrow> [(m, val)]) q)"

definition plain_name :: "string \<Rightarrow> bool" where
  "plain_name m = (m \<noteq> [] \<and> \<not> list_ex isLineTerminator m \<and> m \<noteq> ''__proto__'')"

text \<open>
  The mapping that the description of the decoder states: the filters of the fallback
  overlaid with every filter pair of the query string, a later pair over an earlier one.
\<close>

definition overlay_claimed :: "URLSearchParams \<Rightarrow> State \<Rightarrow> string \<Rightarrow> jsval option" where
  "overlay_claimed q fallback =
     map_of (filters fallback) ++ map_of (rev (map (\<lambda>(n, v). (n, Str v)) (url_pairs q)))"

text \<open>
  The states the codec is specified for. The page sizes are those the table offers
  (\<^verbatim>\<open>[10, 20, 50]\<close> in \<^verbatim>\<open>CustomersTable.tsx\<close>); the keys of an object are distinct.
\<close>

definition valid_state :: "State \<Rightarrow> bool" where
  "valid_state s =
     (1 \<le> page s \<and> pageSize s \<in> {10, 20, 50}
      \<and> (case sorting s of None \<Rightarrow> True | Some so \<Rightarrow> dir so = ''asc'' \<or> dir so = ''desc'')
      \<and> distinct (map fst (filters s))
      \<and> list_all (\<lambda>(k, v). case v of Str x \<Rightarrow> x \<noteq> [] | _ \<Rightarrow> False) (filters s))"

subsection \<open>The hook: state, setters and the fetch\<close>

text \<open>
  The state of one mounted \<^verbatim>\<open>usePaginatedTable\<close>: the five \<^verbatim>\<open>useState\<close> cells of the
  table state, the debounced query, the four cells of the result, and the counter
  \<^verbatim>\<open>latest.current\<close>. An error value is an object with a \<^verbatim>\<open>name\<close> and a \<^verbatim>\<open>message\<close>;
  \<open>None\<close> is \<^verbatim>\<open>null\<close>.
\<close>

datatype exn = Exn (errName: string) (errMessage: string)

record 'r Hook = State +
  debouncedQuery :: string
  rows :: "'r list"
  totalCount :: int
  loading :: bool
  error :: "exn option"
  latest :: nat

definition usePaginatedTable_init :: "URLSearchParams option \<Rightarrow> State \<Rightarrow> 'r Hook" where
  "usePaginatedTable_init window initial =
     (let urlInit = readFromUrl window initial in
      \<lparr> page = page urlInit, pageSize = pageSize urlInit, query = query urlInit,
        sorting = sorting urlInit, filters = filters urlInit,
        debouncedQuery = query urlInit, rows = [], totalCount = 0, loading = False,
        error = None, latest = 0 \<rparr>)"

text \<open>
  \<^verbatim>\<open>setPage\<close>, \<^verbatim>\<open>setPageSize\<close> and \<^verbatim>\<open>setSort\<close> are the setters of their cells, returned
  as they are; \<^verbatim>\<open>setQuery\<close>, \<^verbatim>\<open>setFilter\<close> and \<^verbatim>\<open>clearFilters\<close> are the callbacks that
  write their cell and then set the page to 1.
\<close>

definition setPage :: "int \<Rightarrow> 'r Hook \<Rightarrow> 'r Hook" where
  "setPage n h = h\<lparr>page := n\<rparr>"

definition setPageSize :: "int \<Rightarrow> 'r Hook \<Rightarrow> 'r Hook" where
  "setPageSize n h = h\<lparr>pageSize := n\<rparr>"

definition setQueryState :: "string \<Rightarrow> 'r Hook \<Rightarrow> 'r Hook" where
  "setQueryState q h = h\<lparr>query := q\<rparr>"

definition setSort :: "Sort option \<Rightarrow> 'r Hook \<Rightarrow> 'r Hook" where
  "setSort s h = h\<lparr>sorting := s\<rparr>"

definition setFilters :: "(Filters \<Rightarrow> Filters) \<Rightarrow> 'r Hook \<Rightarrow> 'r Hook" where
  "setFilters g h = h\<lparr>filters := g (filters h)\<rparr>"

definition setQuery :: "string \<Rightarrow> 'r Hook \<Rightarrow> 'r Hook" where
  "setQuery q h = setPage 1 (setQueryState q h)"

definition setFilter :: "string \<Rightarrow> jsval \<Rightarrow> 'r Hook \<Rightarrow> 'r Hook" where
  "setFilter k v h = setPage 1 (setFilters (\<lambda>f. obj_set f k v) h)"

definition clearFilters :: "'r Hook \<Rightarrow> 'r Hook" where
  "clearFilters h = setPage 1 (setFilters (\<lambda>f. []) h)"

text \<open>
  \<^verbatim>\<open>refresh\<close> up to the call of \<^verbatim>\<open>fetch\<close>: it takes the next request id, sets the loading
  flag, clears the error and builds the parameters of the request. It returns the id
  that the callbacks of this request capture, and the parameters sent.
\<close>

definition refresh ::
  "(State \<Rightarrow> URLSearchParams) option \<Rightarrow> 'r Hook \<Rightarrow> nat \<times> URLSearchParams \<times> 'r Hook" where
  "refresh buildParams h =
     (let rid = latest h + 1;
          h = h\<lparr>latest := rid\<rparr>;
          h = h\<lparr>loading := True\<rparr>;
          h = h\<lparr>error := None\<rparr>;
          st = \<lparr> page = page h, pageSize = pageSize h, query = debouncedQuery h,
                 sorting = sorting h, filters = filters h \<rparr>;
          params = (case buildParams of Some b \<Rightarrow> b st | None \<Rightarrow> defaultParams st)
      in (rid, params, h))"

text \<open>
  What the network does with a request: the promise of \<^verbatim>\<open>fetch\<close> is rejected with an
  error, or fulfilled with a response that has a status (\<^verbatim>\<open>ok\<close> for 2xx) and a body, whose
  reading as JSON fails with an error or gives a value. The configured \<^verbatim>\<open>parse\<close> maps that
  value to the items and the total, or throws.

  The four callbacks of the promise chain follow. \<open>on_response\<close> is the first \<^verbatim>\<open>then\<close>,
  \<open>on_json\<close> the second, \<open>on_catch\<close> and \<open>on_finally\<close> the last two; \<open>Inl\<close> is a rejection
  passed down the chain. \<open>complete\<close> runs the chain of the request with id \<open>rid\<close> on the
  state at the time the chain runs. Only \<open>on_json\<close>, \<open>on_catch\<close> and \<open>on_finally\<close> read or
  write the state, and they run in consecutive microtasks, so the chain is one step.
\<close>

datatype 'j response = Response (ok: bool) (statusText: string) (json: "exn + 'j")

datatype 'j settled = Rejected exn | Fulfilled "'j response"

definition on_response :: "'j response \<Rightarrow> exn + 'j" where
  "on_response r = (if \<not> ok r then Inl (Exn ''Error'' (statusText r)) else json r)"

definition on_json ::
  "('j \<Rightarrow> exn + 'r list \<times> int) \<Rightarrow> nat \<Rightarrow> 'r Hook \<Rightarrow> 'j \<Rightarrow> exn + 'r Hook" where
  "on_json parse rid h j =
     (if rid \<noteq> latest h then Inr h
      else case parse j of
             Inl e \<Rightarrow> Inl e
           | Inr (items, tot) \<Rightarrow> Inr (h\<lparr>rows := items, totalCount := tot\<rparr>))"

definition on_catch :: "nat \<Rightarrow> 'r Hook \<Rightarrow> exn \<Rightarrow> 'r Hook" where
  "on_catch rid h e =
     (if rid = latest h \<and> errName e \<noteq> ''AbortError'' then h\<lparr>error := Some e\<rparr> else h)"

definition on_finally :: "nat \<Rightarrow> 'r Hook \<Rightarrow> 'r Hook" where
  "on_finally rid h = (if rid = latest h then h\<lparr>loading := False\<rparr> else h)"

definition complete ::
  "('j \<Rightarrow> exn + 'r list \<times> int) \<Rightarrow> nat \<Rightarrow> 'j settled \<Rightarrow> 'r Hook \<Rightarrow> 'r Hook" where
  "complete parse rid res h =
     (let r1 = (case res of Rejected e \<Rightarrow> Inl e | Fulfilled r \<Rightarrow> on_response r);
          r2 = (case r1 of Inl e \<Rightarrow> Inl e | Inr j \<Rightarrow> on_json parse rid h j);
          h = (case r2 of Inl e \<Rightarrow> on_catch rid h e | Inr h' \<Rightarrow> h')
      in on_finally rid h)"

text \<open>
  The error with which the chain of a request is rejected, if it is: the rejection of
  \<^verbatim>\<open>fetch\<close>, the \<^verbatim>\<open>Error(statusText)\<close> thrown for a status outside 2xx, a failure of reading
  the body, or an exception of \<^verbatim>\<open>parse\<close>.
\<close>

definition failure :: "('j \<Rightarrow> exn + 'r list \<times> int) \<Rightarrow> 'j settled \<Rightarrow> exn option" where
  "failure parse res =
     (case res of
        Rejected e \<Rightarrow> Some e
      | Fulfilled r \<Rightarrow>
          if \<not> ok r then Some (Exn ''Error'' (statusText r))
          else (case json r of
                  Inl e \<Rightarrow> Some e
                | Inr j \<Rightarrow> (case parse j of Inl e \<Rightarrow> Some e | Inr _ \<Rightarrow> None)))"

text \<open>
  What can happen to a mounted hook, one event at a time: a call of a setter, the
  debounce timer passing the query on, a call of \<^verbatim>\<open>refresh\<close> (by the effect or by the
  user), and the settling of the request with a given id. \<open>run\<close> applies a sequence of
  events; every interleaving of calls and completions is such a sequence.
\<close>

datatype 'j event =
    SetPage int
  | SetPageSize int
  | SetQuery string
  | SetSort "Sort option"
  | SetFilter string jsval
  | ClearFilters
  | Debounced
  | Refresh
  | Settle nat "'j settled"

fun step ::
  "('j \<Rightarrow> exn + 'r list \<times> int) \<Rightarrow> (State \<Rightarrow> URLSearchParams) option \<Rightarrow>
     'r Hook \<Rightarrow> 'j event \<Rightarrow> 'r Hook" where
  "step parse bp h (SetPage n) = setPage n h"
| "step parse bp h (SetPageSize n) = setPageSize n h"
| "step parse bp h (SetQuery q) = setQuery q h"
| "step parse bp h (SetSort s) = setSort s h"
| "step parse bp h (SetFilter k v) = setFilter k v h"
| "step parse bp h ClearFilters = clearFilters h"
| "step parse bp h Debounced = h\<lparr>debouncedQuery := query h\<rparr>"
| "step parse bp h Refresh = snd (snd (refresh bp h))"
| "step parse bp h (Settle rid res) = complete parse rid res h"

definition run ::
  "('j \<Rightarrow> exn + 'r list \<times> int) \<Rightarrow> (State \<Rightarrow> URLSearchParams) option \<Rightarrow>
     'j event list \<Rightarrow> 'r Hook \<Rightarrow> 'r Hook" where
  "run parse bp es h = foldl (step parse bp) h es"

subsection \<open>The mock endpoint\<close>

text \<open>
  A customer row; the field \<^verbatim>\<open>id\<close> is \<open>row_id\<close> here. The 500 rows of \<^verbatim>\<open>ROWS\<close> are
  generated when the module loads, their dates from the clock, so the handler takes the
  rows as an argument. A value of \<^verbatim>\<open>req.query\<close> is a string, or an array of strings when
  the parameter is repeated.
\<close>

record Row =
  row_id :: string
  name :: string
  email :: string
  company :: string
  status :: string
  createdAt :: string

datatype qv = One string | Many "string list"

type_synonym NextQuery = "qv obj"

fun qval :: "qv option \<Rightarrow> string \<Rightarrow> string" where
  "qval None fallback = fallback"
| "qval (Some (One x)) fallback = x"
| "qval (Some (Many xs)) fallback = (case xs of [] \<Rightarrow> fallback | x # _ \<Rightarrow> x)"

text \<open>
  Arithmetic on numbers: \<^verbatim>\<open>Math.max\<close>, \<^verbatim>\<open>Math.min\<close>, \<^verbatim>\<open>+\<close>, \<^verbatim>\<open>-\<close> and \<^verbatim>\<open>*\<close> give \<^verbatim>\<open>NaN\<close> as
  soon as an argument is \<^verbatim>\<open>NaN\<close>. \<^verbatim>\<open>Array.prototype.slice\<close> reads \<^verbatim>\<open>NaN\<close> as index 0, counts
  a negative index from the end, and clamps both indices to the length.
\<close>

fun Math_max :: "number \<Rightarrow> number \<Rightarrow> number" where
  "Math_max (Fin a) (Fin b) = Fin (max a b)"
| "Math_max _ _ = NaN"

fun Math_min :: "number \<Rightarrow> number \<Rightarrow> number" where
  "Math_min (Fin a) (Fin b) = Fin (min a b)"
| "Math_min _ _ = NaN"

fun num_add :: "number \<Rightarrow> number \<Rightarrow> number" where
  "num_add (Fin a) (Fin b) = Fin (a + b)"
| "num_add _ _ = NaN"

fun num_sub :: "number \<Rightarrow> number \<Rightarrow> number" where
  "num_sub (Fin a) (Fin b) = Fin (a - b)"
| "num_sub _ _ = NaN"

fun num_mul :: "number \<Rightarrow> number \<Rightarrow> number" where
  "num_mul (Fin a) (Fin b) = Fin (a * b)"
| "num_mul _ _ = NaN"

fun relIndex :: "number \<Rightarrow> nat \<Rightarrow> nat" where
  "relIndex NaN len = 0"
| "relIndex (Fin n) len = (if n < 0 then nat (max (int len + n) 0) else min (nat n) len)"

definition slice :: "'a list \<Rightarrow> number \<Rightarrow> number \<Rightarrow> 'a list" where
  "slice xs start fin =
     (let len = length xs; k = relIndex start len; final = relIndex fin len
      in take (final - k) (drop k xs))"

text \<open>
  \<^verbatim>\<open>toLowerCase\<close> on the code units below 256: the letters A to Z and the capital letters
  of Latin-1 (\<open>0xC0\<close> to \<open>0xDE\<close> without the multiplication sign \<open>0xD7\<close>) go to the letter
  32 places on. \<^verbatim>\<open>s.includes(q)\<close>: \<open>q\<close> occurs in \<open>s\<close> as a contiguous substring.
\<close>

definition isUpper :: "char \<Rightarrow> bool" where
  "isUpper c =
     (let n = (of_char c :: nat)
      in (65 \<le> n \<and> n \<le> 90) \<or> (192 \<le> n \<and> n \<le> 222 \<and> n \<noteq> 215))"

definition toLowerCase :: "string \<Rightarrow> string" where
  "toLowerCase s = map (\<lambda>c. if isUpper c then char_of (of_char c + 32 :: nat) else c) s"

fun str_includes :: "string \<Rightarrow> string \<Rightarrow> bool" where
  "str_includes [] q = (q = [])"
| "str_includes (c # s) q = (prefix q (c # s) \<or> str_includes s q)"

text \<open>
  The comparator of the sort reads \<^verbatim>\<open>a[field]\<close>: a string for the six fields of a row,
  \<^verbatim>\<open>undefined\<close> (\<open>None\<close>) for any other name. \<^verbatim>\<open>>\<close> and \<^verbatim>\<open><\<close> compare two strings by their
  code units and are false when a side is \<^verbatim>\<open>undefined\<close>. \<^verbatim>\<open>Array.prototype.sort\<close> is
  stable; with a comparator it is the stable insertion sort below.
\<close>

definition get_field :: "Row \<Rightarrow> string \<Rightarrow> string option" where
  "get_field r f =
     (if f = ''id'' then Some (row_id r)
      else if f = ''name'' then Some (name r)
      else if f = ''email'' then Some (email r)
      else if f = ''company'' then Some (company r)
      else if f = ''status'' then Some (status r)
      else if f = ''createdAt'' then Some (createdAt r)
      else None)"

fun js_gt :: "string option \<Rightarrow> string option \<Rightarrow> bool" where
  "js_gt (Some a) (Some b) = (b < a)"
| "js_gt _ _ = False"

fun js_lt :: "string option \<Rightarrow> string option \<Rightarrow> bool" where
  "js_lt (Some a) (Some b) = (a < b)"
| "js_lt _ _ = False"

definition compareRows :: "string \<Rightarrow> int \<Rightarrow> Row \<Rightarrow> Row \<Rightarrow> int" where
  "compareRows field sign a b =
     (if js_gt (get_field a field) (get_field b field) then 1
      else if js_lt (get_field a field) (get_field b field) then - 1
      else 0) * sign"

fun insort_cmp :: "('a \<Rightarrow> 'a \<Rightarrow> int) \<Rightarrow> 'a \<Rightarrow> 'a list \<Rightarrow> 'a list" where
  "insort_cmp cmp x [] = [x]"
| "insort_cmp cmp x (y # ys) = (if cmp x y \<le> 0 then x # y # ys else y # insort_cmp cmp x ys)"

definition array_sort :: "('a \<Rightarrow> 'a \<Rightarrow> int) \<Rightarrow> 'a list \<Rightarrow> 'a list" where
  "array_sort cmp xs = foldr (insort_cmp cmp) xs []"

text \<open>
  The handler, statement by statement: the parameters, the filters collected from the
  bracketed keys, then search, the four filters, the sort, and the page cut out last.
  A filter applies when its value is truthy, that is a non-empty string.
\<close>

record Response =
  res_items :: "Row list"
  res_total :: int
  res_page :: number
  res_pageSize :: number

definition when_set :: "string option \<Rightarrow> (string \<Rightarrow> Row \<Rightarrow> bool) \<Rightarrow> Row list \<Rightarrow> Row list" where
  "when_set v keep data =
     (case v of None \<Rightarrow> data | Some x \<Rightarrow> if x \<noteq> [] then filter (keep x) data else data)"

definition collect_filters :: "NextQuery \<Rightarrow> string obj" where
  "collect_filters req =
     foldl (\<lambda>f (k, v).
              case match_filter_key k of
                None \<Rightarrow> f
              | Some m \<Rightarrow> obj_assign f m (qval (Some v) []))
       [] req"

definition sort_stage :: "string \<Rightarrow> Row list \<Rightarrow> Row list" where
  "sort_stage srt data =
     (if srt \<noteq> []
      then let field = hd (split_on CHR '':'' srt);
               dir = (case tl (split_on CHR '':'' srt) of [] \<Rightarrow> None | d # _ \<Rightarrow> Some d);
               sign = (if dir = Some ''desc'' then - 1 else 1)
           in array_sort (compareRows field sign) data
      else data)"

definition handler :: "Row list \<Rightarrow> NextQuery \<Rightarrow> Response" where
  "handler ROWS req =
     (let page = Math_max (Fin 1) (parseInt (qval (map_of req ''page'') ''1'') 10);
          pageSize = Math_min (Fin 100)
                       (Math_max (Fin 1) (parseInt (qval (map_of req ''pageSize'') ''10'') 10));
          q = toLowerCase (qval (map_of req ''q'') []);
          sort = qval (map_of req ''sort'') [];
          filters = collect_filters req;
          data = ROWS;
          data = (if q \<noteq> []
                  then filter (\<lambda>r. str_includes (toLowerCase (name r)) q
                                  \<or> str_includes (toLowerCase (email r)) q
                                  \<or> str_includes (toLowerCase (company r)) q) data
                  else data);
          data = when_set (map_of filters ''status'') (\<lambda>x r. status r = x) data;
          data = when_set (map_of filters ''company'') (\<lambda>x r. company r = x) data;
          data = when_set (map_of filters ''createdAtFrom'') (\<lambda>x r. x \<le> createdAt r) data;
          data = when_set (map_of filters ''createdAtTo'') (\<lambda>x r. createdAt r \<le> x) data;
          data = sort_stage sort data;
          tot = int (length data);
          start = num_mul (num_sub page (Fin 1)) pageSize;
          items = slice data start (num_add start pageSize)
      in \<lparr> res_items = items, res_total = tot, res_page = page, res_pageSize = pageSize \<rparr>)"

text \<open>
  The searched and filtered set in the words of the description: a row is kept when the
  lower-cased query is a substring of its lower-cased name, email or company, and when it
  passes each of the four filters that is set (a filter that is absent or empty lets every
  row pass): status and company equal to the value, creation date not before
  \<^verbatim>\<open>createdAtFrom\<close> and not after \<^verbatim>\<open>createdAtTo\<close>, as strings.
\<close>

definition matches_search :: "string \<Rightarrow> Row \<Rightarrow> bool" where
  "matches_search q r =
     (sublist q (toLowerCase (name r)) \<or> sublist q (toLowerCase (email r))
      \<or> sublist q (toLowerCase (company r)))"

definition passes :: "string option \<Rightarrow> (string \<Rightarrow> bool) \<Rightarrow> bool" where
  "passes v P = (case v of None \<Rightarrow> True | Some x \<Rightarrow> x = [] \<or> P x)"

definition matches_filters :: "string obj \<Rightarrow> Row \<Rightarrow> bool" where
  "matches_filters f r =
     (passes (map_of f ''status'') (\<lambda>x. status r = x)
      \<and> passes (map_of f ''company'') (\<lambda>x. company r = x)
      \<and> passes (map_of f ''createdAtFrom'') (\<lambda>x. x \<le> createdAt r)
      \<and> passes (map_of f ''createdAtTo'') (\<lambda>x. createdAt r \<le> x))"

definition selected :: "Row list \<Rightarrow> NextQuery \<Rightarrow> Row list" where
  "selected ROWS req =
     filter (\<lambda>r. matches_search (toLowerCase (qval (map_of req ''q'') [])) r
                \<and> matches_filters (collect_filters req) r) ROWS"

definition sorted_rows :: "Row list \<Rightarrow> NextQuery \<Rightarrow> Row list" where
  "sorted_rows ROWS req = sort_stage (qval (map_of req ''sort'') []) (selected ROWS req)"





text \<open>
  The events of the user interface and of the debounce timer: every event but a call of
  \<^verbatim>\<open>refresh\<close> and the settling of a request.
\<close>

fun ui_event :: "'j event \<Rightarrow> bool" where
  "ui_event Refresh = False"
| "ui_event (Settle rid res) = False"
| "ui_event _ = True"

text \<open>
  The \<^verbatim>\<open>parse\<close> that \<^verbatim>\<open>CustomersTable\<close> configures reads \<^verbatim>\<open>items\<close> and \<^verbatim>\<open>total\<close> off the
  body, here a pair; and a freshly mounted hook with the default configuration, rendered
  without a \<^verbatim>\<open>window\<close>.
\<close>

definition table_parse :: "'r list \<times> int \<Rightarrow> exn + 'r list \<times> int" where
  "table_parse body = Inr (fst body, snd body)"

definition demo_hook :: "nat Hook" where
  "demo_hook = usePaginatedTable_init None
          \<lparr> page = 1, pageSize = 10, query = [], sorting = None, filters = [] \<rparr>"

text \<open>
  States and query strings for the examples of the codec: a state with a sort and two
  filters, one whose sort key contains a colon, one on page \<open>10\<^sup>2\<^sup>1\<close>, a state with one
  filter, and query strings with a repeated filter, with a filter named \<^verbatim>\<open>__proto__\<close>, with
  a line feed in the name of a filter, and with a filter of the empty name.
\<close>

definition big_state :: State where
  "big_state = \<lparr> page = 1000000000000000000000, pageSize = 10, query = [],
                 sorting = None, filters = [] \<rparr>"

definition company_state :: State where
  "company_state = \<lparr> page = 1, pageSize = 10, query = [], sorting = None,
                     filters = [(''company'', Str ''Epsilon'')] \<rparr>"

definition status_query :: URLSearchParams where
  "status_query =
     [(''filters[status]'', ''active''), (''page'', ''2''), (''filters[status]'', ''trial'')]"

definition proto_query :: URLSearchParams where
  "proto_query = [(''filters[__proto__]'', ''x'')]"

definition linefeed_query :: URLSearchParams where
  "linefeed_query = [(''filters[a'' @ [CHR 0x0A] @ ''b]'', ''x'')]"

definition noname_query :: URLSearchParams where
  "noname_query = [(''filters[]'', ''x'')]"

definition sample_state :: State where
  "sample_state = \<lparr> page = 3, pageSize = 20, query = ''ab'',
                    sorting = Some \<lparr> key = ''name'', dir = ''desc'' \<rparr>,
                    filters = [(''status'', Str ''active''), (''company'', Str ''Epsilon'')] \<rparr>"

definition colon_state :: State where
  "colon_state = \<lparr> page = 1, pageSize = 10, query = [],
                   sorting = Some \<lparr> key = ''a:b'', dir = ''asc'' \<rparr>, filters = [] \<rparr>"

section \<open>The page buttons\<close>



















text \<open>
  Claim C6. The three documented examples: \<^verbatim>\<open>makePageButtons(1, 3, 7)\<close> is \<^verbatim>\<open>[1, 2, 3]\<close>,
  \<^verbatim>\<open>makePageButtons(5, 10, 7)\<close> is \<^verbatim>\<open>[1, '...', 4, 5, 6, '...', 10]\<close>, and
  \<^verbatim>\<open>makePageButtons(1, 1, 7)\<close> is \<^verbatim>\<open>[1]\<close>.
\<close>

theorem pageButtons_examples:
  "makePageButtons 1 3 7 = [Page 1, Page 2, Page 3]
   \<and> makePageButtons 5 10 7 = [Page 1, Ellipsis, Page 4, Page 5, Page 6, Ellipsis, Page 10]
   \<and> makePageButtons 1 1 7 = [Page 1]"
  by code_simp

section \<open>The setters\<close>

lemma map_of_obj_set: "map_of (obj_set f k v) = (map_of f)(k \<mapsto> v)"
  by (induction f k v rule: obj_set.induct) auto

text \<open>
  Claim C3. From any state, so also from one with \<open>page > 1\<close>: \<^verbatim>\<open>setQuery(q)\<close> writes the
  query and sets the page to 1, \<^verbatim>\<open>setFilter(k, v)\<close> writes the one filter entry \<open>k\<close> and
  sets the page to 1, \<^verbatim>\<open>clearFilters()\<close> empties the filters and sets the page to 1; each
  leaves every other component of the state as it was.
\<close>

theorem page_reset:
  "setQuery q h = h\<lparr>query := q, page := 1\<rparr>
   \<and> page (setQuery q h) = 1
   \<and> setFilter k v h = h\<lparr>filters := obj_set (filters h) k v, page := 1\<rparr>
   \<and> map_of (filters (setFilter k v h)) = (map_of (filters h))(k \<mapsto> v)
   \<and> page (setFilter k v h) = 1
   \<and> clearFilters h = h\<lparr>filters := [], page := 1\<rparr>
   \<and> page (clearFilters h) = 1"
  by (simp add: setQuery_def setFilter_def clearFilters_def setPage_def setQueryState_def
      setFilters_def map_of_obj_set)

text \<open>
  Claim C10. \<^verbatim>\<open>setPageSize(n)\<close> writes the page size and nothing else: the page, the
  query, the sort and the filters keep their values; in particular the page is not set
  to 1.
\<close>

theorem setPageSize_frame:
  "setPageSize n h = h\<lparr>pageSize := n\<rparr>
   \<and> pageSize (setPageSize n h) = n
   \<and> page (setPageSize n h) = page h
   \<and> query (setPageSize n h) = query h
   \<and> sorting (setPageSize n h) = sorting h
   \<and> filters (setPageSize n h) = filters h"
  by (simp add: setPageSize_def)

section \<open>The fetch\<close>

text \<open>
  A completion whose id is not the current counter passes through the whole chain
  without a write. The events of the user interface leave the counter and the result
  cells alone.
\<close>

lemma stale_noop: "rid \<noteq> latest h \<Longrightarrow> complete parse rid res h = h"
  by (simp add: complete_def on_json_def on_catch_def on_finally_def
      split: settled.split sum.split)

lemma ui_step_keeps:
  assumes "ui_event e"
  shows "latest (step parse bp h e) = latest h"
    and "rows (step parse bp h e) = rows h"
    and "totalCount (step parse bp h e) = totalCount h"
    and "error (step parse bp h e) = error h"
  using assms
  by (cases e; simp add: setPage_def setPageSize_def setQuery_def setQueryState_def setSort_def
      setFilter_def setFilters_def clearFilters_def)+

lemma ui_run_keeps:
  assumes "list_all ui_event es"
  shows "latest (run parse bp es h) = latest h
       \<and> rows (run parse bp es h) = rows h
       \<and> totalCount (run parse bp es h) = totalCount h
       \<and> error (run parse bp es h) = error h"
  using assms unfolding run_def
  by (induction es arbitrary: h) (simp_all add: ui_step_keeps)

lemma refresh_effect:
  assumes "refresh bp h = (rid, p, h')"
  shows "rid = latest h + 1" and "latest h' = rid" and "error h' = None" and "loading h'"
    and "rows h' = rows h" and "totalCount h' = totalCount h"
  using assms by (auto simp: refresh_def Let_def)

lemma complete_current_ok:
  assumes "rid = latest h" and "parse j = Inr (items, tot)"
  shows "complete parse rid (Fulfilled (Response True st (Inr j))) h
           = h\<lparr>rows := items, totalCount := tot, loading := False\<rparr>"
  using assms by (simp add: complete_def on_response_def on_json_def on_finally_def)

text \<open>
  Claim C2. Request A is issued, then request B, then B is fulfilled with a body that
  \<^verbatim>\<open>parse\<close> maps to \<open>items\<close> and \<open>tot\<close>, then A settles in any way; between these four
  steps any events of the user interface may happen. Then the rows and the total are
  those of B after B's completion and still after A's, A's completion leaves the state
  as it found it, and no error is set. In general a completion whose captured id differs
  from the current counter returns the state unchanged.
\<close>

theorem latest_wins:
  assumes A: "refresh bp h0 = (idA, pA, h1)"
    and ui1: "list_all ui_event es1"
    and B: "refresh bp (run parse bp es1 h1) = (idB, pB, h2)"
    and ui2: "list_all ui_event es2"
    and h3: "h3 = complete parse idB (Fulfilled (Response True st (Inr j))) (run parse bp es2 h2)"
    and pj: "parse j = Inr (items, tot)"
    and ui3: "list_all ui_event es3"
    and h4: "h4 = complete parse idA resA (run parse bp es3 h3)"
  shows "rows h3 = items \<and> totalCount h3 = tot
       \<and> h4 = run parse bp es3 h3
       \<and> rows h4 = items \<and> totalCount h4 = tot \<and> error h4 = None
       \<and> (\<forall>rid res (h :: 'a Hook). rid \<noteq> latest h \<longrightarrow> complete parse rid res h = h)"
proof -
  have a: "latest h1 = idA" using refresh_effect [OF A] by simp
  have b: "idB = idA + 1" "latest h2 = idB" "error h2 = None"
    using refresh_effect [OF B] ui_run_keeps [OF ui1, of parse bp h1] a by simp_all
  have cur: "idB = latest (run parse bp es2 h2)"
    using ui_run_keeps [OF ui2, of parse bp h2] b by simp
  have h3': "h3 = (run parse bp es2 h2)\<lparr>rows := items, totalCount := tot, loading := False\<rparr>"
    unfolding h3 using cur pj by (rule complete_current_ok)
  have l3: "latest h3 = idB" "rows h3 = items" "totalCount h3 = tot" "error h3 = None"
    using cur ui_run_keeps [OF ui2, of parse bp h2] b by (simp_all add: h3')
  have k3: "latest (run parse bp es3 h3) = idB" "rows (run parse bp es3 h3) = items"
    "totalCount (run parse bp es3 h3) = tot" "error (run parse bp es3 h3) = None"
    using ui_run_keeps [OF ui3, of parse bp h3] l3 by simp_all
  have "idA \<noteq> latest (run parse bp es3 h3)" using k3 b by simp
  then have "h4 = run parse bp es3 h3" unfolding h4 by (rule stale_noop)
  then show ?thesis using l3 k3 by (simp add: stale_noop)
qed

theorem latest_wins_witness:
  "(let (idA, pA, h1) = refresh None demo_hook;
        (idB, pB, h2) = refresh None (run table_parse None [SetPage 2] h1);
        h3 = complete table_parse idB (Fulfilled (Response True ''OK'' (Inr ([8], 1))))
               (run table_parse None [SetQuery ''ab''] h2);
        h4 = complete table_parse idA (Fulfilled (Response True ''OK'' (Inr ([7], 1))))
               (run table_parse None [SetPage 3] h3)
    in list_all ui_event [SetPage 2 :: (nat list \<times> int) event, SetQuery ''ab'', SetPage 3]
       \<and> rows h3 = [8] \<and> rows h4 = [8] \<and> totalCount h4 = 1 \<and> error h4 = None)"
proof -
  obtain idA pA h1 where A: "refresh None demo_hook = (idA, pA, h1)"
    by (metis prod_cases3)
  obtain idB pB h2 where B: "refresh None (run table_parse None [SetPage 2] h1) = (idB, pB, h2)"
    by (metis prod_cases3)
  have u1: "list_all ui_event [SetPage 2 :: (nat list \<times> int) event]"
    and u2: "list_all ui_event [SetQuery ''ab'' :: (nat list \<times> int) event]"
    and u3: "list_all ui_event [SetPage 3 :: (nat list \<times> int) event]" by simp_all
  have p: "table_parse ([8::nat], 1) = Inr ([8], 1)" by (simp add: table_parse_def)
  show ?thesis
    using latest_wins [OF A u1 B u2 refl p u3 refl, of "''OK''"
        "Fulfilled (Response True ''OK'' (Inr ([7], 1)))"]
    unfolding Let_def A B prod.case by (elim conjE) simp
qed

text \<open>
  The error cell after the chain of the current request: the rejection of the chain
  unless its name is \<^verbatim>\<open>AbortError\<close>, else what it was.
\<close>

lemma complete_current_error:
  assumes "rid = latest h"
  shows "error (complete parse rid res h)
           = (case failure parse res of
                None \<Rightarrow> error h
              | Some e \<Rightarrow> if errName e \<noteq> ''AbortError'' then Some e else error h)"
  using assms
  by (simp add: complete_def failure_def on_response_def on_json_def on_catch_def on_finally_def
      split: settled.split sum.split prod.split)

lemma complete_abort_error:
  assumes "failure parse res = Some e" and "errName e = ''AbortError''"
  shows "error (complete parse rid res h) = error h"
proof (cases "rid = latest h")
  case True
  then show ?thesis using assms by (simp add: complete_current_error)
next
  case False
  then show ?thesis by (simp add: stale_noop)
qed

text \<open>
  Claim C8. A call of \<^verbatim>\<open>refresh\<close> leaves the error \<^verbatim>\<open>null\<close>. When the request it issued
  settles while its id is still the current counter (events of the user interface may
  have happened in between), the error is set if and only if the chain was rejected with
  an error whose name is not \<^verbatim>\<open>AbortError\<close>: the rejection of \<^verbatim>\<open>fetch\<close>, the error thrown
  for a status outside 2xx, a failed read of the body or an exception of \<^verbatim>\<open>parse\<close>; the
  error is then that rejection, so a status outside 2xx sets \<^verbatim>\<open>Error(statusText)\<close>. A
  rejection named \<^verbatim>\<open>AbortError\<close> leaves the error as it was, whatever the id and state.
\<close>

theorem fetch_error_discipline:
  assumes R: "refresh bp h = (rid, p, h1)"
    and ui: "list_all ui_event es"
    and h2: "h2 = complete parse rid res (run parse bp es h1)"
  shows "error h1 = None
       \<and> (error h2 \<noteq> None \<longleftrightarrow> (\<exists>e. failure parse res = Some e \<and> errName e \<noteq> ''AbortError''))
       \<and> (\<forall>e. failure parse res = Some e \<and> errName e \<noteq> ''AbortError'' \<longrightarrow> error h2 = Some e)
       \<and> (\<forall>r. res = Fulfilled r \<and> \<not> ok r \<longrightarrow> error h2 = Some (Exn ''Error'' (statusText r)))
       \<and> (\<forall>rid' res' (h' :: 'a Hook) e.
             failure parse res' = Some e \<and> errName e = ''AbortError''
             \<longrightarrow> error (complete parse rid' res' h') = error h')"
proof -
  have e1: "error h1 = None" and l1: "latest h1 = rid" using refresh_effect [OF R] by simp_all
  have k: "latest (run parse bp es h1) = rid" "error (run parse bp es h1) = None"
    using ui_run_keeps [OF ui, of parse bp h1] e1 l1 by simp_all
  have e2: "error h2 = (case failure parse res of None \<Rightarrow> None
              | Some e \<Rightarrow> if errName e \<noteq> ''AbortError'' then Some e else None)"
    unfolding h2 using k by (simp add: complete_current_error split: option.split)
  have non2xx: "error h2 = Some (Exn ''Error'' (statusText r))" if "res = Fulfilled r" "\<not> ok r" for r
    using that by (simp add: e2 failure_def)
  show ?thesis
    using e1 non2xx by (auto simp: e2 complete_abort_error split: option.splits)
qed

theorem fetch_error_discipline_witness:
  "(let (rid, p, h1) = refresh None demo_hook;
        h2 = complete table_parse rid (Fulfilled (Response False ''Not Found'' (Inr ([], 0))))
               (run table_parse None [SetPage 2] h1)
    in list_all ui_event [SetPage 2 :: (nat list \<times> int) event]
       \<and> error h1 = None \<and> error h2 = Some (Exn ''Error'' ''Not Found''))"
proof -
  obtain rid p h1 where R: "refresh None demo_hook = (rid, p, h1)"
    by (metis prod_cases3)
  have u: "list_all ui_event [SetPage 2 :: (nat list \<times> int) event]" by simp
  show ?thesis
    using fetch_error_discipline [OF R u refl, of table_parse
        "Fulfilled (Response False ''Not Found'' (Inr ([], 0)))"]
    by (simp add: R Let_def)
qed

section \<open>The codec\<close>

subsection \<open>Search parameters\<close>

text \<open>\<^verbatim>\<open>get\<close> after \<^verbatim>\<open>set\<close>, and the pairs a \<^verbatim>\<open>set\<close> can leave in the list.\<close>

lemma map_of_filter_other: "k \<noteq> n \<Longrightarrow> map_of (filter (\<lambda>e. fst e \<noteq> n) p) k = map_of p k"
  by (induction p) auto

lemma params_get_set:
  "params_get (params_set p n v) k = (if k = n then Some v else params_get p k)"
  by (induction p n v rule: params_set.induct) (auto simp: params_get_def map_of_filter_other)

lemma set_params_set: "set (params_set p n v) \<subseteq> insert (n, v) (set p)"
  by (induction p n v rule: params_set.induct) auto

subsection \<open>Printing and parsing an integer\<close>

text \<open>
  \<^verbatim>\<open>String\<close> of an integer consists of decimal digits, after the sign if any; \<^verbatim>\<open>parseInt\<close>
  without a radix reads all of it back: no white space to skip, no \<^verbatim>\<open>0x\<close> prefix, every
  character a digit of radix 10.
\<close>

lemma of_char_digit: "d < 10 \<Longrightarrow> (of_char (digit_char d) :: nat) = 48 + d"
  by (simp add: digit_char_def)

lemma digitVal_digit: "d < 10 \<Longrightarrow> digitVal (digit_char d) = Some d"
  by (simp add: digitVal_def of_char_digit)

lemma digits_of_chars: "c \<in> set (digits_of n) \<Longrightarrow> \<exists>d<10. c = digit_char d"
proof (induction n rule: digits_of.induct)
  case (1 n)
  show ?case
  proof (cases "n < 10")
    case True
    then show ?thesis using "1.prems" by (subst (asm) digits_of.simps) auto
  next
    case False
    then have "c \<in> set (digits_of (n div 10)) \<or> c = digit_char (n mod 10)"
      using "1.prems" by (subst (asm) digits_of.simps) auto
    then show ?thesis using "1.IH" [OF False] by (metis mod_less_divisor zero_less_numeral)
  qed
qed

lemma digits_of_nonempty: "digits_of n \<noteq> []"
  by (subst digits_of.simps) simp

lemma digitsValue_snoc:
  "digitsValue R (z @ [c]) = digitsValue R z * R + (case digitVal c of None \<Rightarrow> 0 | Some d \<Rightarrow> d)"
  by (simp add: digitsValue_def)

lemma digitsValue_digits_of: "digitsValue 10 (digits_of n) = n"
proof (induction n rule: digits_of.induct)
  case (1 n)
  show ?case
  proof (cases "n < 10")
    case True
    then show ?thesis by (subst digits_of.simps) (simp add: digitsValue_def digitVal_digit)
  next
    case False
    then show ?thesis
      using "1.IH" [OF False]
      by (subst digits_of.simps) (simp add: digitsValue_snoc digitVal_digit)
  qed
qed

lemma digit_facts:
  assumes "d < 10"
  shows "\<not> isWhiteSpace (digit_char d)" and "isDigit 10 (digit_char d)"
    and "digit_char d \<noteq> CHR ''-''" and "digit_char d \<noteq> CHR ''+''"
    and "digit_char d \<noteq> CHR ''x''" and "digit_char d \<noteq> CHR ''X''"
  using assms by (auto simp: isWhiteSpace_def isDigit_def digitVal_digit of_char_digit
      dest: arg_cong [where f = "of_char :: char \<Rightarrow> nat"])

lemma digits_of_char_facts:
  assumes "c \<in> set (digits_of m)"
  shows "\<not> isWhiteSpace c" and "isDigit 10 c" and "c \<noteq> CHR ''-''" and "c \<noteq> CHR ''+''"
    and "c \<noteq> CHR ''x''" and "c \<noteq> CHR ''X''"
proof -
  obtain d where d: "d < 10" "c = digit_char d" using digits_of_chars [OF assms] by blast
  show "\<not> isWhiteSpace c" "isDigit 10 c" "c \<noteq> CHR ''-''" "c \<noteq> CHR ''+''"
    "c \<noteq> CHR ''x''" "c \<noteq> CHR ''X''"
    unfolding d(2) using digit_facts [OF d(1)] by blast+
qed

lemma parse_digits:
  assumes "z = digits_of m"
  shows "dropWhile isWhiteSpace z = z" and "hd z \<noteq> CHR ''-''" and "hd z \<noteq> CHR ''+''"
    and "take 2 z \<noteq> ''0x''" and "take 2 z \<noteq> ''0X''" and "takeWhile (isDigit 10) z = z"
proof -
  have ne: "z \<noteq> []" using assms digits_of_nonempty by simp
  have h: "hd z \<in> set (digits_of m)" using ne assms by simp
  show "dropWhile isWhiteSpace z = z"
    using ne digits_of_char_facts(1) [OF h] by (cases z) auto
  show "hd z \<noteq> CHR ''-''" "hd z \<noteq> CHR ''+''" using digits_of_char_facts(3,4) [OF h] by blast+
  show "takeWhile (isDigit 10) z = z"
    unfolding assms using digits_of_char_facts(2) by (simp add: takeWhile_eq_all_conv)
  have "CHR ''x'' \<notin> set z" "CHR ''X'' \<notin> set z"
    unfolding assms using digits_of_char_facts(5,6) by blast+
  then have "CHR ''x'' \<notin> set (take 2 z)" "CHR ''X'' \<notin> set (take 2 z)"
    by (meson in_set_takeD)+
  then show "take 2 z \<noteq> ''0x''" "take 2 z \<noteq> ''0X''" by auto
qed

lemma parseInt_String_int:
  assumes "\<bar>n\<bar> < 1000000000000000000000"
  shows "parseInt (String_int n) 0 = Fin n"
proof (cases "n < 0")
  case False
  note p = parse_digits [OF refl, of "nat n"]
  have s: "String_int n = digits_of (nat n)"
    using assms False by (simp add: String_int_def Let_def)
  show ?thesis
    unfolding s using False digits_of_nonempty [of "nat n"]
    by (simp add: parseInt_def Let_def p digitsValue_digits_of)
next
  case True
  note p = parse_digits [OF refl, of "nat (- n)"]
  have s: "String_int n = CHR ''-'' # digits_of (nat (- n))"
    using assms True by (simp add: String_int_def Let_def)
  show ?thesis
    unfolding s using True digits_of_nonempty [of "nat (- n)"]
    by (simp add: parseInt_def Let_def isWhiteSpace_def p digitsValue_digits_of)
qed

text \<open>From \<open>10\<^sup>2\<^sup>1\<close> on, \<^verbatim>\<open>parseInt\<close> reads only the first digit of what \<^verbatim>\<open>String\<close> prints.\<close>

lemma digit_char_0_1:
  "digit_char 0 = CHR ''0''" "digit_char 1 = CHR ''1''" "digit_char (Suc 0) = CHR ''1''"
  by code_simp+

lemma String_int_10_21: "String_int 1000000000000000000000 = ''1e+21''"
proof -
  have d: "digits_of 1000000000000000000000 = ''1000000000000000000000''"
    by (simp add: digits_of.simps digit_char_0_1)
  have e: "exponent_form ''1000000000000000000000'' = ''1e+21''"
    by code_simp
  show ?thesis
    by (simp add: String_int_def Let_def d e)
qed

subsection \<open>Splitting and matching\<close>

lemma split_on_no_sep: "c \<notin> set b \<Longrightarrow> split_on c b = [b]"
  by (induction b) auto

lemma split_on_first: "c \<notin> set a \<Longrightarrow> split_on c (a @ c # b) = a # split_on c b"
  by (induction a) auto

lemma match_filter_key_bracket:
  "match_filter_key (''filters['' @ k @ '']'')
     = (if k \<noteq> [] \<and> \<not> list_ex isLineTerminator k then Some k else None)"
  by (simp add: match_filter_key_def)

lemma match_filter_key_prefix: "match_filter_key k = Some m \<Longrightarrow> take 8 k = ''filters[''"
  by (simp add: match_filter_key_def Let_def split: if_splits)

subsection \<open>What the encoder writes\<close>

text \<open>
  Decoding leaves a filter object as it is when every bracketed pair of the query repeats
  an entry of the object. The filter loop of the encoder writes only bracketed names, so
  it leaves the other parameters as the first four statements set them.
\<close>

lemma obj_set_same: "map_of f k = Some v \<Longrightarrow> obj_set f k v = f"
  by (induction f k v rule: obj_set.induct) auto

lemma obj_assign_same: "map_of f k = Some v \<Longrightarrow> obj_assign f k v = f"
  by (simp add: obj_assign_def obj_set_same)

lemma read_filters_fixed:
  assumes "\<And>k val m. (k, val) \<in> set q \<Longrightarrow> match_filter_key k = Some m
             \<Longrightarrow> map_of f m = Some (Str val)"
  shows "foldl (\<lambda>f (k, val). case match_filter_key k of
                                 None \<Rightarrow> f | Some m \<Rightarrow> obj_assign f m (Str val)) f q = f"
  using assms
proof (induction q)
  case Nil
  then show ?case by simp
next
  case (Cons e q)
  obtain k val where e: "e = (k, val)" by (cases e)
  have step: "(case match_filter_key k of None \<Rightarrow> f | Some m \<Rightarrow> obj_assign f m (Str val)) = f"
    using Cons.prems [of k val] e by (auto split: option.split simp: obj_assign_same)
  have "foldl (\<lambda>f (k, val). case match_filter_key k of
                                 None \<Rightarrow> f | Some m \<Rightarrow> obj_assign f m (Str val)) f q = f"
    by (rule Cons.IH) (use Cons.prems in auto)
  then show ?case by (simp add: e step)
qed

lemma write_filters_get:
  assumes "take 8 n \<noteq> ''filters[''"
  shows "params_get (foldl (\<lambda>p (k, v).
                  if v \<noteq> Null \<and> v \<noteq> Undefined \<and> v \<noteq> Str []
                  then params_set p (''filters['' @ k @ '']'') (String_val v) else p) p fs) n
         = params_get p n"
proof (induction fs arbitrary: p)
  case Nil
  then show ?case by simp
next
  case (Cons e fs)
  obtain k v where e: "e = (k, v)" by (cases e)
  have "n \<noteq> ''filters['' @ k @ '']''" using assms by auto
  then show ?case by (simp add: e Cons.IH params_get_set)
qed

lemma write_filters_set:
  "set (foldl (\<lambda>p (k, v).
                  if v \<noteq> Null \<and> v \<noteq> Undefined \<and> v \<noteq> Str []
                  then params_set p (''filters['' @ k @ '']'') (String_val v) else p) p fs)
     \<subseteq> set p \<union> (\<lambda>(k, v). (''filters['' @ k @ '']'', String_val v)) ` set fs"
proof (induction fs arbitrary: p)
  case Nil
  then show ?case by simp
next
  case (Cons e fs)
  obtain k v where e: "e = (k, v)" by (cases e)
  show ?case
    using Cons.IH [of p] Cons.IH [of "params_set p (''filters['' @ k @ '']'') (String_val v)"]
      set_params_set [of p "''filters['' @ k @ '']''" "String_val v"]
    by (auto simp: e)
qed

lemma defaultParams_get:
  assumes "take 8 n \<noteq> ''filters[''"
  shows "params_get (defaultParams s) n =
     (if n = ''sort'' then map_option (\<lambda>so. key so @ '':'' @ dir so) (sorting s)
      else if n = ''q'' then (if query s \<noteq> [] then Some (query s) else None)
      else if n = ''pageSize'' then Some (String_int (pageSize s))
      else if n = ''page'' then Some (String_int (page s))
      else None)"
proof -
  let ?p1 = "params_set (params_set [] ''page'' (String_int (page s))) ''pageSize''
               (String_int (pageSize s))"
  let ?p2 = "if query s \<noteq> [] then params_set ?p1 ''q'' (query s) else ?p1"
  let ?p3 = "case sorting s of None \<Rightarrow> ?p2
             | Some so \<Rightarrow> params_set ?p2 ''sort'' (key so @ '':'' @ dir so)"
  have "params_get (defaultParams s) n = params_get ?p3 n"
    unfolding defaultParams_def Let_def by (rule write_filters_get [OF assms])
  also have "\<dots> = (if n = ''sort'' then map_option (\<lambda>so. key so @ '':'' @ dir so) (sorting s)
                    else params_get ?p2 n)"
    by (cases "sorting s") (simp_all add: params_get_def)
  also have "params_get ?p2 n = (if n = ''q'' then (if query s \<noteq> [] then Some (query s) else None)
      else if n = ''pageSize'' then Some (String_int (pageSize s))
      else if n = ''page'' then Some (String_int (page s))
      else None)"
    by (simp add: params_get_def)
  finally show ?thesis .
qed


lemma keys_params_set: "fst ` set (params_set p n v) \<subseteq> insert n (fst ` set p)"
proof -
  have "fst ` set (params_set p n v) \<subseteq> fst ` insert (n, v) (set p)"
    by (rule image_mono) (rule set_params_set)
  then show ?thesis by simp
qed

lemma keys_params_set_sub:
  assumes "fst ` set p \<subseteq> K" and "n \<in> K"
  shows "fst ` set (params_set p n v) \<subseteq> K"
proof -
  have "fst ` set (params_set p n v) \<subseteq> insert n (fst ` set p)" by (rule keys_params_set)
  also have "\<dots> \<subseteq> K" using assms by simp
  finally show ?thesis .
qed

lemma defaultParams_entries:
  assumes "(n, val) \<in> set (defaultParams s)"
  shows "n \<in> {''page'', ''pageSize'', ''q'', ''sort''}
       \<or> (\<exists>k v. (k, v) \<in> set (filters s) \<and> n = ''filters['' @ k @ '']'' \<and> val = String_val v)"
proof -
  define K where "K = {''page'', ''pageSize'', ''q'', ''sort''}"
  have K: "''page'' \<in> K" "''pageSize'' \<in> K" "''q'' \<in> K" "''sort'' \<in> K"
    by (simp_all add: K_def)
  define p1 where "p1 = params_set (params_set [] ''page'' (String_int (page s))) ''pageSize''
               (String_int (pageSize s))"
  define p2 where "p2 = (if query s \<noteq> [] then params_set p1 ''q'' (query s) else p1)"
  define p3 where "p3 = (case sorting s of None \<Rightarrow> p2
             | Some so \<Rightarrow> params_set p2 ''sort'' (key so @ '':'' @ dir so))"
  have 0: "fst ` set ([] :: URLSearchParams) \<subseteq> K" by simp
  have 1: "fst ` set p1 \<subseteq> K"
    unfolding p1_def by (intro keys_params_set_sub 0 K)
  have 2: "fst ` set p2 \<subseteq> K"
  proof (cases "query s = []")
    case True
    then show ?thesis using 1 by (simp add: p2_def)
  next
    case False
    then have "p2 = params_set p1 ''q'' (query s)" by (simp add: p2_def)
    then show ?thesis using keys_params_set_sub [OF 1 K(3)] by simp
  qed
  have 3: "fst ` set p3 \<subseteq> K"
  proof (cases "sorting s")
    case None
    then show ?thesis using 2 by (simp add: p3_def)
  next
    case (Some so)
    then have "p3 = params_set p2 ''sort'' (key so @ '':'' @ dir so)" by (simp add: p3_def)
    then show ?thesis using keys_params_set_sub [OF 2 K(4)] by simp
  qed
  have "set (defaultParams s)
          \<subseteq> set p3 \<union> (\<lambda>(k, v). (''filters['' @ k @ '']'', String_val v)) ` set (filters s)"
    unfolding defaultParams_def Let_def p3_def p2_def p1_def by (rule write_filters_set)
  then have "(n, val) \<in> set p3
      \<or> (n, val) \<in> (\<lambda>(k, v). (''filters['' @ k @ '']'', String_val v)) ` set (filters s)"
    using assms by blast
  then show ?thesis
  proof
    assume "(n, val) \<in> set p3"
    then have "fst (n, val) \<in> fst ` set p3" by (rule imageI)
    then have "n \<in> fst ` set p3" by (simp only: fst_conv)
    then have "n \<in> K" using 3 by (rule rev_subsetD)
    then show ?thesis unfolding K_def by (rule disjI1)
  next
    assume "(n, val) \<in> (\<lambda>(k, v). (''filters['' @ k @ '']'', String_val v)) ` set (filters s)"
    then obtain e where e: "e \<in> set (filters s)"
      and eq: "(n, val) = (case e of (k, v) \<Rightarrow> (''filters['' @ k @ '']'', String_val v))"
      by (rule imageE)
    obtain k v where kv: "e = (k, v)" by (cases e)
    have "n = ''filters['' @ k @ '']''" "val = String_val v" using eq unfolding kv by simp_all
    then show ?thesis using e kv by blast
  qed
qed

subsection \<open>Decoding the filters\<close>

text \<open>
  The assignment of the decoder writes the entry of its key, and touches no other entry;
  only under the key \<^verbatim>\<open>__proto__\<close> may it write nothing. The pattern of the decoder accepts
  the bracketed keys whose name is not empty and has no line terminator.
\<close>

lemma map_of_obj_assign:
  "m \<noteq> ''__proto__'' \<Longrightarrow> map_of (obj_assign f k v) m = ((map_of f)(k \<mapsto> v)) m"
  by (simp add: obj_assign_def map_of_obj_set)

lemma map_of_obj_assign_other: "k \<noteq> m \<Longrightarrow> map_of (obj_assign f k v) m = map_of f m"
  by (simp add: obj_assign_def map_of_obj_set)

lemma keys_obj_set: "set (map fst f) \<subseteq> set (map fst (obj_set f k v))"
  by (induction f k v rule: obj_set.induct) auto

lemma keys_obj_assign: "set (map fst f) \<subseteq> set (map fst (obj_assign f k v))"
proof (cases "k = ''__proto__'' \<and> map_of f k = None")
  case True
  then have "obj_assign f k v = f" unfolding obj_assign_def by (rule if_P)
  then show ?thesis by simp
next
  case False
  then have "obj_assign f k v = obj_set f k v" unfolding obj_assign_def by (rule if_not_P)
  then show ?thesis using keys_obj_set [of f k v] by simp
qed

lemma match_filter_key_bracket_name:
  "match_filter_key k =
     (case bracket_name k of
        None \<Rightarrow> None
      | Some m \<Rightarrow> if m \<noteq> [] \<and> \<not> list_ex isLineTerminator m then Some m else None)"
proof (cases "9 \<le> length k")
  case True
  then have "drop 8 k \<noteq> []" and "last (drop 8 k) = last k" by simp_all
  then show ?thesis by (simp add: match_filter_key_def bracket_name_def Let_def True)
next
  case False
  then have "butlast (drop 8 k) = []"
    by (cases "drop 8 k") (auto simp: butlast_conv_take)
  then show ?thesis using False by (simp add: match_filter_key_def bracket_name_def Let_def)
qed

lemma read_step_other:
  assumes "match_filter_key k \<noteq> Some m"
  shows "map_of (case match_filter_key k of
                   None \<Rightarrow> f | Some n \<Rightarrow> obj_assign f n (Str val)) m = map_of f m"
proof (cases "match_filter_key k")
  case None
  then show ?thesis by simp
next
  case (Some n)
  then have "n \<noteq> m" using assms by simp
  then show ?thesis by (simp add: Some map_of_obj_assign_other)
qed

lemma read_step_plain:
  assumes "plain_name m"
  shows "map_of (case match_filter_key k of
                   None \<Rightarrow> f | Some n \<Rightarrow> obj_assign f n (Str val)) m
         = (case map_of (case bracket_name k of None \<Rightarrow> [] | Some n \<Rightarrow> [(n, val)]) m of
              None \<Rightarrow> map_of f m
            | Some x \<Rightarrow> Some (Str x))"
proof (cases "bracket_name k = Some m")
  case True
  have p: "m \<noteq> ''__proto__''" and w: "m \<noteq> [] \<and> \<not> list_ex isLineTerminator m"
    using assms by (simp_all add: plain_name_def)
  have "match_filter_key k = Some m"
    using w by (simp add: match_filter_key_bracket_name True)
  then show ?thesis by (simp add: True map_of_obj_assign [OF p])
next
  case False
  then have "match_filter_key k \<noteq> Some m"
    by (auto simp: match_filter_key_bracket_name split: option.splits if_splits)
  then have l: "map_of (case match_filter_key k of
                   None \<Rightarrow> f | Some n \<Rightarrow> obj_assign f n (Str val)) m = map_of f m"
    by (rule read_step_other)
  have "map_of (case bracket_name k of None \<Rightarrow> [] | Some n \<Rightarrow> [(n, val)]) m = None"
    using False by (cases "bracket_name k") auto
  then show ?thesis by (simp add: l)
qed

lemma read_filters_untouched:
  assumes "\<And>k val. (k, val) \<in> set q \<Longrightarrow> match_filter_key k \<noteq> Some m"
  shows "map_of (foldl (\<lambda>f (k, val). case match_filter_key k of
                                 None \<Rightarrow> f | Some m \<Rightarrow> obj_assign f m (Str val)) f q) m
         = map_of f m"
  using assms
proof (induction q arbitrary: f)
  case Nil
  then show ?case by simp
next
  case (Cons e q)
  obtain k val where e: "e = (k, val)" by (cases e)
  have "match_filter_key k \<noteq> Some m" using Cons.prems [of k val] by (simp add: e)
  then have s: "map_of (case match_filter_key k of
                   None \<Rightarrow> f | Some n \<Rightarrow> obj_assign f n (Str val)) m = map_of f m"
    by (rule read_step_other)
  have "map_of (foldl (\<lambda>f (k, val). case match_filter_key k of
                                 None \<Rightarrow> f | Some m \<Rightarrow> obj_assign f m (Str val))
                 (case match_filter_key k of
                   None \<Rightarrow> f | Some n \<Rightarrow> obj_assign f n (Str val)) q) m
        = map_of (case match_filter_key k of
                   None \<Rightarrow> f | Some n \<Rightarrow> obj_assign f n (Str val)) m"
    by (rule Cons.IH) (use Cons.prems in auto)
  then show ?case by (simp add: e s)
qed

lemma read_filters_plain:
  assumes "plain_name m"
  shows "map_of (foldl (\<lambda>f (k, val). case match_filter_key k of
                                 None \<Rightarrow> f | Some m \<Rightarrow> obj_assign f m (Str val)) f q) m
         = (case map_of (rev (url_pairs q)) m of
              None \<Rightarrow> map_of f m
            | Some x \<Rightarrow> Some (Str x))"
proof (induction q arbitrary: f)
  case Nil
  then show ?case by (simp add: url_pairs_def)
next
  case (Cons e q)
  obtain k val where e: "e = (k, val)" by (cases e)
  let ?f = "case match_filter_key k of None \<Rightarrow> f | Some n \<Rightarrow> obj_assign f n (Str val)"
  let ?p = "case bracket_name k of None \<Rightarrow> [] | Some n \<Rightarrow> [(n, val)]"
  have u: "rev (url_pairs (e # q)) = rev (url_pairs q) @ rev ?p"
    by (simp add: url_pairs_def e)
  have r: "rev ?p = ?p" by (cases "bracket_name k") simp_all
  have "map_of (rev (url_pairs (e # q))) m
          = (case map_of (rev (url_pairs q)) m of None \<Rightarrow> map_of ?p m | Some x \<Rightarrow> Some x)"
    unfolding u r by (simp add: map_add_def)
  then have "(case map_of (rev (url_pairs (e # q))) m of
                None \<Rightarrow> map_of f m | Some x \<Rightarrow> Some (Str x))
          = (case map_of (rev (url_pairs q)) m of
                None \<Rightarrow> map_of ?f m | Some x \<Rightarrow> Some (Str x))"
    by (simp add: read_step_plain [OF assms] split: option.split)
  then show ?case using Cons.IH [of ?f] by (simp add: e)
qed

lemma url_pairs_absent:
  assumes "map_of (url_pairs q) m = None" and "(k, val) \<in> set q"
  shows "match_filter_key k \<noteq> Some m"
proof
  assume "match_filter_key k = Some m"
  then have "bracket_name k = Some m"
    by (auto simp: match_filter_key_bracket_name split: option.splits if_splits)
  then have "(m, val) \<in> set (url_pairs q)"
    using assms(2) by (force simp: url_pairs_def)
  then have "map_of (url_pairs q) m \<noteq> None"
    by (metis map_of_eq_None_iff fst_conv image_eqI)
  then show False using assms(1) by simp
qed

lemma read_filters_keys:
  "set (map fst f) \<subseteq> set (map fst (foldl (\<lambda>f (k, val). case match_filter_key k of
                                 None \<Rightarrow> f | Some m \<Rightarrow> obj_assign f m (Str val)) f q))"
proof (induction q arbitrary: f)
  case Nil
  then show ?case by simp
next
  case (Cons e q)
  obtain k val where e: "e = (k, val)" by (cases e)
  show ?case
  proof (cases "match_filter_key k")
    case None
    then show ?thesis using Cons.IH [of f] by (simp add: e)
  next
    case (Some m)
    have "set (map fst f) \<subseteq> set (map fst (obj_assign f m (Str val)))" by (rule keys_obj_assign)
    also have "\<dots> \<subseteq> set (map fst (foldl (\<lambda>f (k, val). case match_filter_key k of
                                 None \<Rightarrow> f | Some m \<Rightarrow> obj_assign f m (Str val))
                               (obj_assign f m (Str val)) q))"
      by (rule Cons.IH)
    finally show ?thesis using Some by (simp add: e)
  qed
qed

lemma filters_readFromUrl:
  "filters (readFromUrl (Some q) fallback)
     = foldl (\<lambda>f (k, val). case match_filter_key k of
                                 None \<Rightarrow> f | Some m \<Rightarrow> obj_assign f m (Str val))
         (filters fallback) q"
  by (simp add: readFromUrl_def Let_def)

lemma overlay_claimed_at:
  "overlay_claimed q fallback m
     = (case map_of (rev (url_pairs q)) m of
          None \<Rightarrow> map_of (filters fallback) m
        | Some x \<Rightarrow> Some (Str x))"
proof -
  have "map_of (rev (map (\<lambda>(n, v). (n, Str v)) (url_pairs q))) m
          = map_option Str (map_of (rev (url_pairs q)) m)"
    unfolding rev_map by (simp add: map_of_map)
  then show ?thesis
    by (simp add: overlay_claimed_def map_add_def split: option.split)
qed

text \<open>
  Claim C9, as amended. For every fallback and every query string, at every name that is
  not empty, has no line terminator and is not \<^verbatim>\<open>__proto__\<close>, the filters that
  \<^verbatim>\<open>readFromUrl\<close> returns are, as a mapping, the filters of the fallback overlaid with the
  pairs \<^verbatim>\<open>filters[name]=value\<close> of the query (a later pair of the same name over an earlier
  one). At any name at all, an entry of the fallback that has no pair in the query keeps
  its value, and every key of the fallback is a key of the result, so decoding removes no
  default filter. Without a \<^verbatim>\<open>window\<close> the result is the fallback.
\<close>

theorem readFromUrl_merges_filters:
  "(plain_name m
      \<longrightarrow> map_of (filters (readFromUrl (Some q) fallback)) m = overlay_claimed q fallback m)
   \<and> (map_of (url_pairs q) m = None
      \<longrightarrow> map_of (filters (readFromUrl (Some q) fallback)) m = map_of (filters fallback) m)
   \<and> set (map fst (filters fallback)) \<subseteq> set (map fst (filters (readFromUrl (Some q) fallback)))
   \<and> readFromUrl None fallback = fallback"
proof (intro conjI impI)
  show "map_of (filters (readFromUrl (Some q) fallback)) m = overlay_claimed q fallback m"
    if "plain_name m"
    unfolding filters_readFromUrl overlay_claimed_at by (rule read_filters_plain [OF that])
  show "map_of (filters (readFromUrl (Some q) fallback)) m = map_of (filters fallback) m"
    if "map_of (url_pairs q) m = None"
    unfolding filters_readFromUrl
    by (rule read_filters_untouched) (rule url_pairs_absent [OF that])
  show "set (map fst (filters fallback)) \<subseteq> set (map fst (filters (readFromUrl (Some q) fallback)))"
    unfolding filters_readFromUrl by (rule read_filters_keys)
  show "readFromUrl None fallback = fallback"
    by (simp add: readFromUrl_def)
qed

theorem readFromUrl_merges_filters_witness:
  "plain_name ''status''
   \<and> map_of (filters (readFromUrl (Some status_query) company_state)) ''status''
       = overlay_claimed status_query company_state ''status''
   \<and> overlay_claimed status_query company_state ''status'' = Some (Str ''trial'')
   \<and> map_of (url_pairs status_query) ''company'' = None
   \<and> map_of (filters (readFromUrl (Some status_query) company_state)) ''company''
       = Some (Str ''Epsilon'')"
proof -
  have e: "plain_name ''status''"
    "overlay_claimed status_query company_state ''status'' = Some (Str ''trial'')"
    "map_of (url_pairs status_query) ''company'' = None"
    "map_of (filters company_state) ''company'' = Some (Str ''Epsilon'')"
    by code_simp+
  show ?thesis
    using readFromUrl_merges_filters [of "''status''" status_query company_state]
      readFromUrl_merges_filters [of "''company''" status_query company_state] e
    by metis
qed

text \<open>
  The claim as stated, for every pair of the query, fails at three kinds of name. A pair
  named \<^verbatim>\<open>__proto__\<close> is assigned to the setter of \<^verbatim>\<open>Object.prototype\<close> and stores
  nothing; a pair whose name has a line feed, and a pair of the empty name, do not match
  the pattern of the decoder. In each case the query has the pair, the claimed overlay
  has its value, and the decoded filters are those of the fallback.
\<close>

theorem readFromUrl_merges_filters_counterexample:
  "overlay_claimed proto_query company_state ''__proto__'' = Some (Str ''x'')
   \<and> map_of (filters (readFromUrl (Some proto_query) company_state)) ''__proto__'' = None
   \<and> overlay_claimed linefeed_query company_state (''a'' @ [CHR 0x0A] @ ''b'') = Some (Str ''x'')
   \<and> map_of (filters (readFromUrl (Some linefeed_query) company_state))
         (''a'' @ [CHR 0x0A] @ ''b'') = None
   \<and> overlay_claimed noname_query company_state [] = Some (Str ''x'')
   \<and> map_of (filters (readFromUrl (Some noname_query) company_state)) [] = None"
  by code_simp

subsection \<open>The round trip\<close>

lemma not_filter_key:
  assumes "n \<in> {''page'', ''pageSize'', ''q'', ''sort''}"
  shows "match_filter_key n = None"
proof -
  have "take 8 n \<noteq> ''filters[''" using assms by auto
  then show ?thesis using match_filter_key_prefix [of n] by (cases "match_filter_key n") auto
qed

lemma defaultParams_consistent:
  assumes v: "valid_state s"
    and e: "(n, val) \<in> set (defaultParams s)"
    and m: "match_filter_key n = Some m"
  shows "map_of (filters s) m = Some (Str val)"
proof -
  have "n \<notin> {''page'', ''pageSize'', ''q'', ''sort''}"
    using not_filter_key [of n] m by auto
  then obtain k x where kx: "(k, x) \<in> set (filters s)"
    and n: "n = ''filters['' @ k @ '']''" and val: "val = String_val x"
    using defaultParams_entries [OF e] by blast
  have mk: "m = k" using m unfolding n match_filter_key_bracket by (simp split: if_splits)
  have d: "distinct (map fst (filters s))"
    and a: "list_all (\<lambda>(k, v). case v of Str x \<Rightarrow> x \<noteq> [] | _ \<Rightarrow> False) (filters s)"
    using v by (simp_all add: valid_state_def)
  have "case x of Str y \<Rightarrow> y \<noteq> [] | _ \<Rightarrow> False"
    using a kx by (auto simp: list_all_iff)
  then obtain y where x: "x = Str y" by (cases x) simp_all
  have "map_of (filters s) k = Some x" using d kx by (rule map_of_is_SomeI)
  then show ?thesis by (simp add: mk val x)
qed

lemma sort_round_trip:
  assumes "CHR '':'' \<notin> set k" and "d = ''asc'' \<or> d = ''desc''"
  shows "k @ '':'' @ d \<noteq> []"
    and "hd (split_on CHR '':'' (k @ '':'' @ d)) = k"
    and "(case tl (split_on CHR '':'' (k @ '':'' @ d)) of
            [] \<Rightarrow> ''asc'' | x # _ \<Rightarrow> if x = [] then ''asc'' else x) = d"
proof -
  have nd: "CHR '':'' \<notin> set d" and ne: "d \<noteq> []" using assms(2) by auto
  have "split_on CHR '':'' (k @ '':'' @ d) = k # split_on CHR '':'' d"
    using split_on_first [OF assms(1), of d] by simp
  then have s: "split_on CHR '':'' (k @ '':'' @ d) = [k, d]"
    by (simp add: split_on_no_sep [OF nd])
  show "k @ '':'' @ d \<noteq> []" by simp
  show "hd (split_on CHR '':'' (k @ '':'' @ d)) = k" unfolding s by simp
  show "(case tl (split_on CHR '':'' (k @ '':'' @ d)) of
            [] \<Rightarrow> ''asc'' | x # _ \<Rightarrow> if x = [] then ''asc'' else x) = d"
    unfolding s using ne by simp
qed

text \<open>
  Claim C1, as amended. For every valid state \<open>s\<close> (page at least 1, page size among those
  offered, direction \<^verbatim>\<open>asc\<close> or \<^verbatim>\<open>desc\<close>, filter values non-empty strings under distinct
  keys) whose page is below \<open>10\<^sup>2\<^sup>1\<close> and whose sort key, if a sort is set, contains no
  colon, decoding the parameters that \<^verbatim>\<open>defaultParams\<close> produces for \<open>s\<close>, with \<open>s\<close> as the
  fallback, gives \<open>s\<close> back: page, page size, query, sort and filters.
\<close>

theorem codec_round_trip:
  assumes v: "valid_state s"
    and b: "page s < 1000000000000000000000"
    and c: "case sorting s of None \<Rightarrow> True | Some so \<Rightarrow> CHR '':'' \<notin> set (key so)"
  shows "readFromUrl (Some (defaultParams s)) s = s"
proof -
  let ?q = "defaultParams s"
  have g: "params_get ?q ''page'' = Some (String_int (page s))"
    "params_get ?q ''pageSize'' = Some (String_int (pageSize s))"
    "params_get ?q ''q'' = (if query s \<noteq> [] then Some (query s) else None)"
    "params_get ?q ''sort'' = map_option (\<lambda>so. key so @ '':'' @ dir so) (sorting s)"
    by (simp_all add: defaultParams_get)
  have "1 \<le> page s" using v by (simp add: valid_state_def)
  then have bp: "\<bar>page s\<bar> < 1000000000000000000000" using b by linarith
  have "pageSize s \<in> {10, 20, 50}" using v by (simp add: valid_state_def)
  then have bs: "\<bar>pageSize s\<bar> < 1000000000000000000000" by auto
  have pg: "(case parseInt (case params_get ?q ''page'' of None \<Rightarrow> [] | Some v \<Rightarrow> v) 0 of
               NaN \<Rightarrow> page s | Fin n \<Rightarrow> if n = 0 then page s else n) = page s"
    by (simp add: g parseInt_String_int [OF bp])
  have ps: "(case parseInt (case params_get ?q ''pageSize'' of None \<Rightarrow> [] | Some v \<Rightarrow> v) 0 of
               NaN \<Rightarrow> pageSize s | Fin n \<Rightarrow> if n = 0 then pageSize s else n) = pageSize s"
    by (simp add: g parseInt_String_int [OF bs])
  have qu: "(case params_get ?q ''q'' of None \<Rightarrow> query s | Some v \<Rightarrow> v) = query s"
    by (simp add: g)
  have so: "(case params_get ?q ''sort'' of
               None \<Rightarrow> sorting s
             | Some sp \<Rightarrow>
                 if sp = [] then sorting s
                 else Some \<lparr> key = hd (split_on CHR '':'' sp),
                             dir = (case tl (split_on CHR '':'' sp) of
                                      [] \<Rightarrow> ''asc''
                                    | d # _ \<Rightarrow> if d = [] then ''asc'' else d) \<rparr>) = sorting s"
  proof (cases "sorting s")
    case None
    then show ?thesis by (simp add: g)
  next
    case (Some x)
    have k: "CHR '':'' \<notin> set (key x)" using c Some by simp
    have d: "dir x = ''asc'' \<or> dir x = ''desc''" using v Some by (simp add: valid_state_def)
    show ?thesis
      unfolding g Some option.map option.case
      by (simp only: sort_round_trip [OF k d] if_False) simp
  qed
  have fi: "foldl (\<lambda>f (k, val). case match_filter_key k of
                                 None \<Rightarrow> f | Some m \<Rightarrow> obj_assign f m (Str val))
              (filters s) ?q = filters s"
    by (rule read_filters_fixed) (rule defaultParams_consistent [OF v])
  have "readFromUrl (Some ?q) s
          = \<lparr> page = page s, pageSize = pageSize s, query = query s, sorting = sorting s,
              filters = filters s \<rparr>"
    unfolding readFromUrl_def option.case Let_def pg ps qu so fi ..
  then show ?thesis by simp
qed

theorem codec_round_trip_witness:
  "valid_state sample_state
   \<and> page sample_state < 1000000000000000000000
   \<and> sorting sample_state = Some \<lparr> key = ''name'', dir = ''desc'' \<rparr>
   \<and> CHR '':'' \<notin> set ''name''
   \<and> readFromUrl (Some (defaultParams sample_state)) sample_state = sample_state"
proof -
  have v: "valid_state sample_state" by (simp add: valid_state_def sample_state_def)
  have b: "page sample_state < 1000000000000000000000" by (simp add: sample_state_def)
  have c: "case sorting sample_state of None \<Rightarrow> True | Some so \<Rightarrow> CHR '':'' \<notin> set (key so)"
    by (simp add: sample_state_def)
  show ?thesis using codec_round_trip [OF v b c] v by (simp add: sample_state_def)
qed

text \<open>
  The claim as stated fails in two ways. A sort key with a colon is written as
  \<^verbatim>\<open>a:b:asc\<close> and read back as key \<^verbatim>\<open>a\<close> with direction \<^verbatim>\<open>b\<close>, since the decoder splits at
  every colon and takes the first two parts. The page \<open>10\<^sup>2\<^sup>1\<close> is written as \<^verbatim>\<open>1e+21\<close> and
  read back as page 1, since \<^verbatim>\<open>parseInt\<close> stops at the letter.
\<close>

theorem codec_round_trip_counterexample:
  "valid_state colon_state
   \<and> readFromUrl (Some (defaultParams colon_state)) colon_state \<noteq> colon_state
   \<and> sorting (readFromUrl (Some (defaultParams colon_state)) colon_state)
       = Some \<lparr> key = ''a'', dir = ''b'' \<rparr>
   \<and> valid_state big_state
   \<and> readFromUrl (Some (defaultParams big_state)) big_state \<noteq> big_state
   \<and> page (readFromUrl (Some (defaultParams big_state)) big_state) = 1"
proof -
  have c: "valid_state colon_state
      \<and> readFromUrl (Some (defaultParams colon_state)) colon_state \<noteq> colon_state
      \<and> sorting (readFromUrl (Some (defaultParams colon_state)) colon_state)
          = Some \<lparr> key = ''a'', dir = ''b'' \<rparr>"
    by code_simp
  have v: "valid_state big_state" by (simp add: valid_state_def big_state_def)
  have "params_get (defaultParams big_state) ''page'' = Some (String_int (page big_state))"
    by (simp add: defaultParams_get)
  then have g: "params_get (defaultParams big_state) ''page'' = Some ''1e+21''"
    by (simp add: big_state_def String_int_10_21)
  have p: "parseInt ''1e+21'' 0 = Fin 1" by code_simp
  have "page (readFromUrl (Some (defaultParams big_state)) big_state)
          = (case parseInt (case params_get (defaultParams big_state) ''page'' of
                              None \<Rightarrow> [] | Some v \<Rightarrow> v) 0 of
               NaN \<Rightarrow> page big_state | Fin n \<Rightarrow> if n = 0 then page big_state else n)"
    by (simp add: readFromUrl_def Let_def)
  then have r: "page (readFromUrl (Some (defaultParams big_state)) big_state) = 1"
    by (simp add: g p)
  have "page big_state \<noteq> 1" by (simp add: big_state_def)
  then have "readFromUrl (Some (defaultParams big_state)) big_state \<noteq> big_state"
    using r by metis
  then show ?thesis using c v r by blast
qed

section \<open>The mock endpoint\<close>

subsection \<open>Search and filters\<close>

text \<open>
  \<^verbatim>\<open>includes\<close> is the substring test, and a conditional filter keeps the rows that pass
  the filter when it is set.
\<close>

lemma str_includes_sublist: "str_includes s q = sublist q s"
  by (induction s) (simp_all add: sublist_Cons_right)

lemma when_set_filter: "when_set v keep data = filter (\<lambda>r. passes v (\<lambda>x. keep x r)) data"
  by (cases v) (simp_all add: when_set_def passes_def)

lemma search_stage:
  "(if q \<noteq> []
    then filter (\<lambda>r. str_includes (toLowerCase (name r)) q
                    \<or> str_includes (toLowerCase (email r)) q
                    \<or> str_includes (toLowerCase (company r)) q) data
    else data) = filter (matches_search q) data"
proof -
  have m: "matches_search q = (\<lambda>r. sublist q (toLowerCase (name r))
              \<or> sublist q (toLowerCase (email r)) \<or> sublist q (toLowerCase (company r)))"
    by (simp add: fun_eq_iff matches_search_def)
  show ?thesis unfolding m by (cases "q = []") (simp_all add: str_includes_sublist)
qed

subsection \<open>The sort\<close>

text \<open>
  The sort rearranges its input, and what it returns is in the order asked for: the
  comparator of the handler is at most 0 exactly on the pairs that are in order, and that
  order is total and transitive.
\<close>

lemma mset_insort_cmp: "mset (insort_cmp cmp x xs) = add_mset x (mset xs)"
  by (induction xs) simp_all

lemma mset_array_sort: "mset (array_sort cmp xs) = mset xs"
  unfolding array_sort_def by (induction xs) (simp_all add: mset_insort_cmp)

lemma mset_sort_stage: "mset (sort_stage srt xs) = mset xs"
  by (simp add: sort_stage_def Let_def mset_array_sort)

lemma length_sort_stage: "length (sort_stage srt xs) = length xs"
  using mset_sort_stage [of srt xs] by (metis size_mset)









subsection \<open>The page\<close>


lemma slice_NaN: "slice xs NaN NaN = []"
  by (simp add: slice_def)



lemma handler_data:
  "handler ROWS req =
     \<lparr> res_items = slice (sorted_rows ROWS req)
         (num_mul (num_sub (Math_max (Fin 1) (parseInt (qval (map_of req ''page'') ''1'') 10)) (Fin 1))
            (Math_min (Fin 100) (Math_max (Fin 1) (parseInt (qval (map_of req ''pageSize'') ''10'') 10))))
         (num_add
           (num_mul (num_sub (Math_max (Fin 1) (parseInt (qval (map_of req ''page'') ''1'') 10)) (Fin 1))
              (Math_min (Fin 100) (Math_max (Fin 1) (parseInt (qval (map_of req ''pageSize'') ''10'') 10))))
           (Math_min (Fin 100) (Math_max (Fin 1) (parseInt (qval (map_of req ''pageSize'') ''10'') 10)))),
       res_total = int (length (selected ROWS req)),
       res_page = Math_max (Fin 1) (parseInt (qval (map_of req ''page'') ''1'') 10),
       res_pageSize = Math_min (Fin 100)
                        (Math_max (Fin 1) (parseInt (qval (map_of req ''pageSize'') ''10'') 10)) \<rparr>"
proof -
  have sel: "when_set (map_of (collect_filters req) ''createdAtTo'') (\<lambda>x r. createdAt r \<le> x)
       (when_set (map_of (collect_filters req) ''createdAtFrom'') (\<lambda>x r. x \<le> createdAt r)
         (when_set (map_of (collect_filters req) ''company'') (\<lambda>x r. company r = x)
           (when_set (map_of (collect_filters req) ''status'') (\<lambda>x r. status r = x)
             (if toLowerCase (qval (map_of req ''q'') []) \<noteq> []
              then filter (\<lambda>r. str_includes (toLowerCase (name r)) (toLowerCase (qval (map_of req ''q'') []))
                              \<or> str_includes (toLowerCase (email r)) (toLowerCase (qval (map_of req ''q'') []))
                              \<or> str_includes (toLowerCase (company r)) (toLowerCase (qval (map_of req ''q'') [])))
                     ROWS
              else ROWS))))
     = selected ROWS req"
    unfolding search_stage when_set_filter selected_def filter_filter
    by (rule filter_cong [OF refl]) (auto simp: matches_filters_def)
  show ?thesis
    unfolding handler_def Let_def sel sorted_rows_def length_sort_stage ..
qed



lemma start_NaN: "pg = NaN \<or> ps = NaN \<Longrightarrow> num_mul (num_sub pg (Fin 1)) ps = NaN"
  by (cases pg; cases ps) auto




text \<open>
  Claim C7 does not hold of the handler. A \<^verbatim>\<open>page\<close> or \<^verbatim>\<open>pageSize\<close> that is present and
  has no leading digits, such as \<^verbatim>\<open>abc\<close> or the empty string, is parsed to \<^verbatim>\<open>NaN\<close>;
  \<^verbatim>\<open>Math.max(1, NaN)\<close> and \<^verbatim>\<open>Math.min(100, NaN)\<close> are \<^verbatim>\<open>NaN\<close>, so the value in the
  response is neither defaulted nor clamped, and the page of items is empty.
\<close>

theorem handler_page_not_normalized:
  "res_page (handler ROWS [(''page'', One ''abc'')]) = NaN
   \<and> res_items (handler ROWS [(''page'', One ''abc'')]) = []
   \<and> res_pageSize (handler ROWS [(''pageSize'', One ''abc'')]) = NaN
   \<and> res_page (handler ROWS [(''page'', One [])]) = NaN"
proof -
  have p: "parseInt ''abc'' 10 = NaN" "parseInt [] 10 = NaN" by code_simp+
  show ?thesis by (simp add: handler_data p start_NaN slice_NaN)
qed

end
